theory Spec2Isabelle
  imports Main "HOL-Library.Sublist"
begin

section \<open>Strings and identifiers of \<open>src/db/utils.ts\<close>\<close>

text \<open>
  A JavaScript string is a sequence of UTF-16 code units. The model uses \<^typ>\<open>string\<close>,
  whose characters are the code units below 256 (the Latin-1 range); \<open>trim\<close> and
  \<open>toLowerCase\<close> map this range into itself, so the functions below are the
  JavaScript ones restricted to it.
\<close>

definition backtick :: char where
  "backtick = CHR 0x60"

definition apostrophe :: char where
  "apostrophe = CHR 0x27"

text \<open>
  The code units that \<open>String.prototype.trim\<close> removes and that \<open>\s\<close> matches
  (WhiteSpace and LineTerminator), below 256: TAB, LF, VT, FF, CR, SPACE, NBSP.
\<close>

definition isWhiteSpace :: "char \<Rightarrow> bool" where
  "isWhiteSpace c = (of_char c \<in> {9, 10, 11, 12, 13, 32, 160 :: nat})"

text \<open>
  \<open>toLowerCase\<close> on one code unit below 256: A-Z and the Latin-1 capitals
  U+00C0..U+00DE (without the multiplication sign U+00D7) move up by 32.
\<close>

definition toLowerCaseChar :: "char \<Rightarrow> char" where
  "toLowerCaseChar c =
     (let n = of_char c :: nat
      in if (65 \<le> n \<and> n \<le> 90) \<or> (192 \<le> n \<and> n \<le> 222 \<and> n \<noteq> 215)
         then char_of (n + 32) else c)"

definition toLowerCase :: "string \<Rightarrow> string" where
  "toLowerCase s = map toLowerCaseChar s"

definition trim :: "string \<Rightarrow> string" where
  "trim s = rev (dropWhile isWhiteSpace (rev (dropWhile isWhiteSpace s)))"

text \<open>\<open>s.replace(/`/g, "")\<close>\<close>

definition removeBackticks :: "string \<Rightarrow> string" where
  "removeBackticks s = filter (\<lambda>c. c \<noteq> backtick) s"

text \<open>
  JavaScript truthiness of a value of type \<open>string | undefined | null\<close>:
  \<open>None\<close> stands for \<open>undefined\<close> and \<open>null\<close>, and the empty string is falsy.
\<close>

definition truthy :: "string option \<Rightarrow> bool" where
  "truthy v = (case v of None \<Rightarrow> False | Some s \<Rightarrow> s \<noteq> [])"

text \<open>
  \<^verbatim>\<open>
  function normalizeIdent(part: string | undefined | null): string | undefined {
    if (!part) return undefined;
    return String(part).replace(/`/g, "").trim().toLowerCase();
  }
  \<close>
  The result can be the empty string (for a part made of backticks and blanks only).
\<close>

definition normalizeIdent :: "string option \<Rightarrow> string option" where
  "normalizeIdent part =
     (if \<not> truthy part then None
      else Some (toLowerCase (trim (removeBackticks (the part)))))"

section \<open>Syntax trees\<close>

text \<open>
  The values that \<open>parser.astify\<close> of \<open>node-sql-parser\<close> returns: plain JavaScript
  values. An object is the list of its own enumerable properties in the order of
  \<open>Object.values\<close>; its keys are distinct. The traversal below never looks at a
  number, so numbers are kept as integers.
\<close>

datatype json =
    JNull
  | JUndefined
  | JBool bool
  | JNum int
  | JStr string
  | JArr "json list"
  | JObj "(string \<times> json) list"

text \<open>\<open>node[key]\<close> on an object: \<open>undefined\<close> when the property is missing.\<close>

definition getProp :: "(string \<times> json) list \<Rightarrow> string \<Rightarrow> json" where
  "getProp kvs key = (case map_of kvs key of None \<Rightarrow> JUndefined | Some v \<Rightarrow> v)"

record ReferencedTable =
  schema :: "string option"
  table :: string

text \<open>
  Modelled from the spec: the type \<open>DenylistedTable\<close>, declared in
  \<open>src/config/index.ts\<close>, which is not among the sources. Section 3 gives a denylist
  entry the shape \<open>{ schema: optional string, table: string }\<close>, which is
  structurally the type of a referenced table.
\<close>

type_synonym DenylistedTable = ReferencedTable

section \<open>Table reference extraction\<close>

text \<open>
  The body of the \<open>isRecord\<close> branch of \<open>visit\<close> before the recursion: the node's
  own reference is pushed to \<open>out\<close> when \<open>node["table"]\<close> is a string whose
  normalised form is truthy.
\<close>

definition pushTable :: "(string \<times> json) list \<Rightarrow> ReferencedTable list \<Rightarrow> ReferencedTable list" where
  "pushTable kvs out =
     (case getProp kvs ''table'' of
        JStr maybeTable \<Rightarrow>
          (let tbl = normalizeIdent (Some maybeTable)
           in if truthy tbl
              then out @ [\<lparr> schema = (case getProp kvs ''db'' of
                                          JStr maybeDb \<Rightarrow> normalizeIdent (Some maybeDb)
                                        | _ \<Rightarrow> None),
                            table = the tbl \<rparr>]
              else out)
      | _ \<Rightarrow> out)"

text \<open>
  The closure \<open>visit\<close>, with the array \<open>out\<close> it appends to passed through.
  Falsy nodes, and values that are neither arrays nor objects, leave it unchanged.
\<close>

fun visit :: "json \<Rightarrow> ReferencedTable list \<Rightarrow> ReferencedTable list" where
  "visit (JArr ns) out = fold visit ns out"
| "visit (JObj kvs) out = fold visit (map snd kvs) (pushTable kvs out)"
| "visit _ out = out"

text \<open>The key of the de-duplication: \<open>`${t.schema || ""}.${t.table}`\<close>.\<close>

definition dedupeKey :: "ReferencedTable \<Rightarrow> string" where
  "dedupeKey t = (if truthy (schema t) then the (schema t) else []) @ ''.'' @ table t"

text \<open>The final \<open>out.filter\<close> with the set \<open>seen\<close> it updates.\<close>

fun dedupe :: "string set \<Rightarrow> ReferencedTable list \<Rightarrow> ReferencedTable list" where
  "dedupe seen [] = []"
| "dedupe seen (t # ts) =
     (if dedupeKey t \<in> seen then dedupe seen ts
      else t # dedupe (insert (dedupeKey t) seen) ts)"

definition getReferencedTablesFromAst :: "json \<Rightarrow> ReferencedTable list" where
  "getReferencedTablesFromAst ast = dedupe {} (visit ast [])"

section \<open>Parsing one statement\<close>

text \<open>
  What the functions throw. \<open>ParserError\<close> is whatever \<open>parser.astify\<close> throws on
  malformed SQL, \<open>SingleStatementOnly\<close> is
  \<open>new Error("Only single-statement SQL is allowed")\<close>, \<open>TypeError\<close> is the
  run-time error of a property access on \<open>null\<close> or of a call of a non-function, and
  \<open>ParsingFailed e\<close> is \<open>new Error(`Parsing failed: ${err.message}`)\<close>.
\<close>

datatype error =
    ParserError string
  | SingleStatementOnly
  | TypeError
  | ParsingFailed error

text \<open>
  \<open>parser.astify(sql, { database: "mysql" })\<close> belongs to the library
  \<open>node-sql-parser\<close>; it is a parameter of every function that calls it.
\<close>

type_synonym parser = "string \<Rightarrow> error + json"

text \<open>\<open>Array.isArray(astOrArray) ? astOrArray : [astOrArray]\<close>\<close>

definition statementsOf :: "json \<Rightarrow> json list" where
  "statementsOf astOrArray = (case astOrArray of JArr xs \<Rightarrow> xs | _ \<Rightarrow> [astOrArray])"

definition getReferencedTables :: "parser \<Rightarrow> string \<Rightarrow> error + ReferencedTable list" where
  "getReferencedTables astify sql =
     (case astify sql of
        Inl e \<Rightarrow> Inl e
      | Inr astOrArray \<Rightarrow>
          (let statements = statementsOf astOrArray
           in if length statements \<noteq> 1 then Inl SingleStatementOnly
              else Inr (getReferencedTablesFromAst (hd statements))))"

section \<open>Denylist policy\<close>

record decision =
  blocked :: bool
  reason :: "string option"

definition notBlocked :: decision where
  "notBlocked = \<lparr> blocked = False, reason = None \<rparr>"

definition unqualifiedReason :: string where
  "unqualifiedReason =
     ''Unqualified table references are not allowed in multi-DB mode when MYSQL_TABLE_DENYLIST is set. Use fully-qualified schema.table names.''"

text \<open>
  \<open>`Access to table '${name}' is blocked by MYSQL_TABLE_DENYLIST`\<close>, where \<open>name\<close> is
  \<open>${deny.schema}.${deny.table}\<close> for a schema-specific entry and \<open>${table}\<close> otherwise.
\<close>

definition accessReason :: "string \<Rightarrow> string" where
  "accessReason name =
     ''Access to table '' @ [apostrophe] @ name @ [apostrophe] @ '' is blocked by MYSQL_TABLE_DENYLIST''"

text \<open>
  The inner loop \<open>for (const deny of denylist)\<close> for one referenced table with its
  resolved schema: \<open>Some\<close> is the \<open>return\<close> inside the loop, \<open>None\<close> the end of
  the loop.
\<close>

fun checkDenylist :: "string option \<Rightarrow> string \<Rightarrow> DenylistedTable list \<Rightarrow> decision option" where
  "checkDenylist sch tbl [] = None"
| "checkDenylist sch tbl (deny # rest) =
     (if truthy (schema deny)
      then (if truthy sch \<and> schema deny = sch \<and> table deny = tbl
            then Some \<lparr> blocked = True,
                        reason = Some (accessReason (the (schema deny) @ ''.'' @ table deny)) \<rparr>
            else checkDenylist sch tbl rest)
      else (if table deny = tbl
            then Some \<lparr> blocked = True, reason = Some (accessReason tbl) \<rparr>
            else checkDenylist sch tbl rest))"

text \<open>\<open>t.schema || normalizeIdent(defaultSchema) || undefined\<close>\<close>

definition resolveSchema :: "string option \<Rightarrow> ReferencedTable \<Rightarrow> string option" where
  "resolveSchema defaultSchema t =
     (if truthy (schema t) then schema t
      else if truthy (normalizeIdent defaultSchema) then normalizeIdent defaultSchema
      else None)"

text \<open>The outer loop \<open>for (const t of referenced)\<close> and the final \<open>return\<close>.\<close>

fun checkReferenced :: "string option \<Rightarrow> DenylistedTable list \<Rightarrow> ReferencedTable list \<Rightarrow> decision" where
  "checkReferenced defaultSchema denylist [] = notBlocked"
| "checkReferenced defaultSchema denylist (t # ts) =
     (case checkDenylist (resolveSchema defaultSchema t) (table t) denylist of
        Some d \<Rightarrow> d
      | None \<Rightarrow> checkReferenced defaultSchema denylist ts)"

definition isQueryBlockedByDenylist ::
  "parser \<Rightarrow> string \<Rightarrow> DenylistedTable list \<Rightarrow> string option \<Rightarrow> bool \<Rightarrow> error + decision" where
  "isQueryBlockedByDenylist astify sql denylist defaultSchema multiDbMode =
     (if denylist = [] then Inr notBlocked
      else case getReferencedTables astify sql of
        Inl e \<Rightarrow> Inl e
      | Inr referenced \<Rightarrow>
          if referenced = [] then Inr notBlocked
          else if multiDbMode \<and> (\<exists>t \<in> set referenced. \<not> truthy (schema t))
          then Inr \<lparr> blocked = True, reason = Some unqualifiedReason \<rparr>
          else Inr (checkReferenced defaultSchema denylist referenced))"

section \<open>The schema heuristic\<close>

text \<open>
  What \<open>extractSchemaFromQuery\<close> reads besides its argument: \<open>process.env.MYSQL_DB\<close>
  and the constant \<open>isMultiDbMode\<close> imported from \<open>src/config/index.ts\<close>.
\<close>

record environment =
  MYSQL_DB :: "string option"
  isMultiDbMode :: bool

definition isWordChar :: "char \<Rightarrow> bool" where
  "isWordChar c =
     (let n = of_char c :: nat
      in (48 \<le> n \<and> n \<le> 57) \<or> (65 \<le> n \<and> n \<le> 90) \<or> (97 \<le> n \<and> n \<le> 122) \<or> n = 95)"

text \<open>The optional backtick of both regular expressions.\<close>

definition skipBacktick :: "string \<Rightarrow> string" where
  "skipBacktick s = (case s of [] \<Rightarrow> [] | c # r \<Rightarrow> if c = backtick then r else s)"

text \<open>
  A regular expression without the sticky flag is tried at every index from the left;
  \<open>m\<close> is the attempt at one index, on the rest of the string from there.
\<close>

fun firstMatch :: "(string \<Rightarrow> string option) \<Rightarrow> string \<Rightarrow> string option" where
  "firstMatch m [] = m []"
| "firstMatch m (c # cs) = (case m (c # cs) of Some g \<Rightarrow> Some g | None \<Rightarrow> firstMatch m cs)"

text \<open>
  One attempt of \<open>/USE\s+`?([a-zA-Z0-9_]+)`?/i\<close>, returning group 1. Every quantifier
  is greedy, and giving characters back never helps: the character after a maximal run
  of blanks is no blank, and a backtick is no word character.
\<close>

definition useMatchAt :: "string \<Rightarrow> string option" where
  "useMatchAt s =
     (case s of
        c1 # c2 # c3 # rest \<Rightarrow>
          if toLowerCaseChar c1 = CHR ''u'' \<and> toLowerCaseChar c2 = CHR ''s''
             \<and> toLowerCaseChar c3 = CHR ''e'' \<and> takeWhile isWhiteSpace rest \<noteq> []
          then (let g = takeWhile isWordChar (skipBacktick (dropWhile isWhiteSpace rest))
                in if g = [] then None else Some g)
          else None
      | _ \<Rightarrow> None)"

text \<open>One attempt of \<open>/`?([a-zA-Z0-9_]+)`?\.`?[a-zA-Z0-9_]+`?/i\<close>, returning group 1.\<close>

definition dbTableMatchAt :: "string \<Rightarrow> string option" where
  "dbTableMatchAt s =
     (let r0 = skipBacktick s;
          g = takeWhile isWordChar r0
      in if g = [] then None
         else case skipBacktick (dropWhile isWordChar r0) of
                [] \<Rightarrow> None
              | c # r \<Rightarrow>
                  if c = CHR ''.'' \<and> takeWhile isWordChar (skipBacktick r) \<noteq> []
                  then Some g else None)"

definition extractSchemaFromQuery :: "environment \<Rightarrow> string \<Rightarrow> string option" where
  "extractSchemaFromQuery env sql =
     (let defaultSchema = (if truthy (MYSQL_DB env) then MYSQL_DB env else None)
      in if truthy defaultSchema \<and> \<not> isMultiDbMode env then defaultSchema
         else case firstMatch useMatchAt sql of
                Some g \<Rightarrow> Some g
              | None \<Rightarrow>
                  (case firstMatch dbTableMatchAt sql of
                     Some g \<Rightarrow> Some g
                   | None \<Rightarrow> defaultSchema))"

section \<open>Statement classification\<close>

text \<open>
  \<open>stmt.type?.toLowerCase() ?? "unknown"\<close>: reading a property of \<open>null\<close> or
  \<open>undefined\<close> throws, as does calling \<open>toLowerCase\<close> on a \<open>type\<close> that is not a
  string; a primitive or an array has no \<open>type\<close>.
\<close>

definition statementType :: "json \<Rightarrow> error + string" where
  "statementType stmt =
     (case stmt of
        JNull \<Rightarrow> Inl TypeError
      | JUndefined \<Rightarrow> Inl TypeError
      | JObj kvs \<Rightarrow>
          (case getProp kvs ''type'' of
             JStr ty \<Rightarrow> Inr (toLowerCase ty)
           | JNull \<Rightarrow> Inr ''unknown''
           | JUndefined \<Rightarrow> Inr ''unknown''
           | _ \<Rightarrow> Inl TypeError)
      | _ \<Rightarrow> Inr ''unknown'')"

text \<open>The body of the \<open>try\<close> block of \<open>getQueryTypes\<close> (the calls of \<open>log\<close> left out).\<close>

definition getQueryTypesTry :: "parser \<Rightarrow> string \<Rightarrow> error + string list" where
  "getQueryTypesTry astify query =
     (case astify query of
        Inl e \<Rightarrow> Inl e
      | Inr astOrArray \<Rightarrow>
          (let statements = statementsOf astOrArray
           in if length statements \<noteq> 1 then Inl SingleStatementOnly
              else case statementType (hd statements) of
                     Inl e \<Rightarrow> Inl e
                   | Inr ty \<Rightarrow> Inr [ty]))"

text \<open>The \<open>catch\<close> block rethrows everything as \<open>Parsing failed: ...\<close>; a rejected promise is \<open>Inl\<close>.\<close>

definition getQueryTypes :: "parser \<Rightarrow> string \<Rightarrow> error + string list" where
  "getQueryTypes astify query =
     (case getQueryTypesTry astify query of
        Inl e \<Rightarrow> Inl (ParsingFailed e)
      | Inr tys \<Rightarrow> Inr tys)"

section \<open>Read-only execution\<close>

text \<open>
  The events on the pool and on the leased connection, in the order they happen.
\<close>

datatype connEvent =
    GetConnection
  | SetSessionReadOnly
  | BeginTransaction
  | RunStatement string
  | Rollback
  | SetSessionReadWrite
  | Release

record config =
  allowInsert :: bool
  allowUpdate :: bool
  allowDelete :: bool
  allowDdl :: bool

record toolResult =
  content :: "string list"
  isError :: bool

fun errorMessage :: "error \<Rightarrow> string" where
  "errorMessage (ParserError msg) = msg"
| "errorMessage SingleStatementOnly = ''Only single-statement SQL is allowed''"
| "errorMessage TypeError = ''TypeError''"
| "errorMessage (ParsingFailed e) = ''Parsing failed: '' @ errorMessage e"

text \<open>
  Modelled from the spec: the permission check of read-only mode, part of
  \<open>executeReadOnlyQuery\<close> in \<open>src/db/index.ts\<close>, which is not among the sources
  (only its unit tests are). Section 4.5: a statement that is insert, update, delete or
  ddl and whose configuration flag is not enabled is blocked. Which statement types
  count as ddl is not said; \<open>isDdl\<close> is a parameter. The result is the operation
  named in the denial, as the unit tests read it
  (\<open>"INSERT operations are not allowed"\<close>).
\<close>

definition blockedOperation :: "config \<Rightarrow> (string \<Rightarrow> bool) \<Rightarrow> string list \<Rightarrow> string option" where
  "blockedOperation cfg isDdl queryTypes =
     (if ''insert'' \<in> set queryTypes \<and> \<not> allowInsert cfg then Some ''INSERT''
      else if ''update'' \<in> set queryTypes \<and> \<not> allowUpdate cfg then Some ''UPDATE''
      else if ''delete'' \<in> set queryTypes \<and> \<not> allowDelete cfg then Some ''DELETE''
      else if (\<exists>ty \<in> set queryTypes. isDdl ty) \<and> \<not> allowDdl cfg then Some ''DDL''
      else None)"

text \<open>
  Modelled from the spec: \<open>executeReadOnlyQuery\<close> of \<open>src/db/index.ts\<close>, which is
  not among the sources. Section 4.5, read-only mode: classify the statement; a blocked
  statement returns an error result without a connection or a transaction; otherwise
  acquire a connection, set the session read-only, begin a transaction, run the
  statement, always roll back, restore the session to read-write and release the
  connection, whether or not the statement fails. A classification error is an error
  result as well (failure semantics of 4.5). The database is the parameter \<open>run\<close>:
  the error message of a failed statement, or the text blocks of a successful read.
  The denylist check of 4.3, whose place in the executor the spec does not fix, is
  left out. The connection events are appended to the log passed in.
\<close>

definition executeReadOnlyQuery ::
  "config \<Rightarrow> (string \<Rightarrow> bool) \<Rightarrow> parser \<Rightarrow> (string \<Rightarrow> string + string list) \<Rightarrow> string
     \<Rightarrow> connEvent list \<Rightarrow> toolResult \<times> connEvent list" where
  "executeReadOnlyQuery cfg isDdl astify run sql events =
     (case getQueryTypes astify sql of
        Inl e \<Rightarrow> (\<lparr> content = [errorMessage e], isError = True \<rparr>, events)
      | Inr queryTypes \<Rightarrow>
          (case blockedOperation cfg isDdl queryTypes of
             Some operation \<Rightarrow>
               (\<lparr> content = [operation @ '' operations are not allowed''], isError = True \<rparr>,
                events)
           | None \<Rightarrow>
               (let events' = events @ [GetConnection, SetSessionReadOnly, BeginTransaction,
                                        RunStatement sql, Rollback, SetSessionReadWrite, Release]
                in case run sql of
                     Inl msg \<Rightarrow> (\<lparr> content = [msg], isError = True \<rparr>, events')
                   | Inr blocks \<Rightarrow> (\<lparr> content = blocks, isError = False \<rparr>, events'))))"

section \<open>Notions of the specification\<close>

text \<open>
  Section 4.3, step 4, in the specification's words: a schema-qualified entry blocks
  only on an exact schema and table match, a schema-less entry blocks on a table-name
  match in any schema. \<open>sch\<close> is the resolved schema of the referenced table.
\<close>

definition entryMatches :: "DenylistedTable \<Rightarrow> string option \<Rightarrow> string \<Rightarrow> bool" where
  "entryMatches deny sch tbl =
     (if truthy (schema deny) then sch = schema deny \<and> tbl = table deny
      else tbl = table deny)"

text \<open>
  Section 4.3, step 3, in the specification's words: a table without an explicit schema
  is resolved against the configured default schema.
\<close>

definition resolvedAgainstDefault :: "string option \<Rightarrow> ReferencedTable \<Rightarrow> string option" where
  "resolvedAgainstDefault defaultSchema t =
     (if truthy (schema t) then schema t else normalizeIdent defaultSchema)"

text \<open>
  Section 4.2, normalisation: what it means for an identifier to be trimmed, stripped
  of backtick quoting and lower-cased.
\<close>

definition isNormalized :: "string \<Rightarrow> bool" where
  "isNormalized s =
     (backtick \<notin> set s
      \<and> (s \<noteq> [] \<longrightarrow> \<not> isWhiteSpace (hd s) \<and> \<not> isWhiteSpace (last s))
      \<and> toLowerCase s = s)"

text \<open>Every node of a syntax tree, at any depth, the tree itself included.\<close>

fun subnodes :: "json \<Rightarrow> json list" where
  "subnodes (JArr ns) = JArr ns # concat (map subnodes ns)"
| "subnodes (JObj kvs) = JObj kvs # concat (map subnodes (map snd kvs))"
| "subnodes v = [v]"

text \<open>
  The reference that a node with a string-valued \<open>table\<close> field stands for: its
  normalised table name and, when \<open>db\<close> is a string, its normalised schema.
\<close>

definition nodeReference :: "(string \<times> json) list \<Rightarrow> ReferencedTable option" where
  "nodeReference kvs =
     (case getProp kvs ''table'' of
        JStr maybeTable \<Rightarrow>
          Some \<lparr> schema = (case getProp kvs ''db'' of
                              JStr maybeDb \<Rightarrow> normalizeIdent (Some maybeDb)
                            | _ \<Rightarrow> None),
                 table = (case normalizeIdent (Some maybeTable) of None \<Rightarrow> [] | Some tbl \<Rightarrow> tbl) \<rparr>
      | _ \<Rightarrow> None)"

text \<open>
  Rewriting the identifiers of a syntax tree: \<open>g\<close> is applied to every string-valued
  \<open>table\<close> and \<open>db\<close> field, at any depth. With a \<open>g\<close> that changes letter case or
  adds backtick quoting, this is the tree of a query that differs in the spelling of its
  identifiers only.
\<close>

fun mapIdents :: "(string \<Rightarrow> string) \<Rightarrow> json \<Rightarrow> json" where
  "mapIdents g (JArr ns) = JArr (map (mapIdents g) ns)"
| "mapIdents g (JObj kvs) =
     JObj (map (\<lambda>kv. (fst kv,
                        case snd kv of
                          JStr s \<Rightarrow> if fst kv = ''table'' \<or> fst kv = ''db'' then JStr (g s) else JStr s
                        | _ \<Rightarrow> mapIdents g (snd kv))) kvs)"
| "mapIdents g v = v"

text \<open>The references in the order \<open>visit\<close> pushes them, without the array passed through.\<close>

fun pushed :: "json \<Rightarrow> ReferencedTable list" where
  "pushed (JArr ns) = concat (map pushed ns)"
| "pushed (JObj kvs) = pushTable kvs [] @ concat (map pushed (map snd kvs))"
| "pushed v = []"

text \<open>
  A spelling of an identifier that differs from it in letter case and quoting only:
  upper-case ASCII letters, wrapped in backticks (the empty string is left alone).
\<close>

definition toUpperAsciiChar :: "char \<Rightarrow> char" where
  "toUpperAsciiChar c =
     (let n = of_char c :: nat in if 97 \<le> n \<and> n \<le> 122 then char_of (n - 32) else c)"

definition quoteUpper :: "string \<Rightarrow> string" where
  "quoteUpper s = (if s = [] then [] else backtick # map toUpperAsciiChar s @ [backtick])"

section \<open>Example inputs\<close>

text \<open>
  The syntax trees of \<open>node-sql-parser\<close> (MySQL dialect) for a few statements. A table
  in \<open>FROM\<close> or \<open>INTO\<close> is a node \<open>{ db, table, as }\<close>; the column \<open>*\<close> is a
  \<open>column_ref\<close> whose \<open>table\<close> is \<open>null\<close>.
\<close>

definition tableNode :: "string option \<Rightarrow> string \<Rightarrow> json" where
  "tableNode db tbl =
     JObj [(''db'', case db of None \<Rightarrow> JNull | Some d \<Rightarrow> JStr d), (''table'', JStr tbl), (''as'', JNull)]"

definition selectAst :: "json \<Rightarrow> json \<Rightarrow> json" where
  "selectAst columns from =
     JObj [(''with'', JNull), (''type'', JStr ''select''), (''options'', JNull),
           (''distinct'', JNull), (''columns'', columns), (''from'', from),
           (''where'', JNull), (''groupby'', JNull), (''having'', JNull),
           (''orderby'', JNull), (''limit'', JNull)]"

definition starColumns :: json where
  "starColumns =
     JArr [JObj [(''expr'', JObj [(''type'', JStr ''column_ref''), (''table'', JNull),
                                  (''column'', JStr ''*'')]),
                 (''as'', JNull)]]"

definition numberColumns :: "int \<Rightarrow> json" where
  "numberColumns n =
     JArr [JObj [(''expr'', JObj [(''type'', JStr ''number''), (''value'', JNum n)]),
                 (''as'', JNull)]]"

definition insertAst :: json where
  "insertAst =
     JObj [(''type'', JStr ''insert''), (''table'', JArr [tableNode None ''test'']),
           (''columns'', JArr [JStr ''name'']),
           (''values'', JArr [JObj [(''type'', JStr ''expr_list''),
                                    (''value'', JArr [JObj [(''type'', JStr ''number''),
                                                            (''value'', JNum 1)]])]]),
           (''partition'', JNull), (''on_duplicate_update'', JNull)]"

text \<open>A parser that knows these statements and rejects everything else.\<close>

definition exampleParser :: parser where
  "exampleParser sql =
     (if sql = ''SELECT * FROM users'' then Inr (selectAst starColumns (JArr [tableNode None ''users'']))
      else if sql = ''SELECT * FROM users -- USE prod'' then Inr (selectAst starColumns (JArr [tableNode None ''users'']))
      else if sql = ''SELECT * FROM orders'' then Inr (selectAst starColumns (JArr [tableNode None ''orders'']))
      else if sql = ''SELECT * FROM prod.users'' then Inr (selectAst starColumns (JArr [tableNode (Some ''prod'') ''users'']))
      else if sql = ''SELECT 1'' then Inr (selectAst (numberColumns 1) JNull)
      else if sql = ''SELECT 1; SELECT 2''
        then Inr (JArr [selectAst (numberColumns 1) JNull, selectAst (numberColumns 2) JNull])
      else if sql = ''INSERT INTO test (name) VALUES (1)'' then Inr insertAst
      else if sql = ''SELECT * FROM ` `'' then Inr (selectAst starColumns (JArr [tableNode None '' '']))
      else if sql = ''SELECT * FROM a.`b.c`'' then Inr (selectAst starColumns (JArr [tableNode (Some ''a'') ''b.c'']))
      else if sql = ''SELECT * FROM `a.b`.c, a.`b.c`''
        then Inr (selectAst starColumns (JArr [tableNode (Some ''a.b'') ''c'', tableNode (Some ''a'') ''b.c'']))
      else Inl (ParserError ''Syntax error''))"

section \<open>The denylist loops\<close>

lemma checkDenylist_Some:
  "checkDenylist sch tbl denylist = Some d \<Longrightarrow>
     blocked d \<and> (\<exists>deny \<in> set denylist. entryMatches deny sch tbl \<and>
        reason d = Some (accessReason (if truthy (schema deny) then the sch @ ''.'' @ tbl else tbl)))"
  by (induction denylist) (auto simp: entryMatches_def split: if_splits)

lemma checkDenylist_None:
  "checkDenylist sch tbl denylist = None \<longleftrightarrow> (\<forall>deny \<in> set denylist. \<not> entryMatches deny sch tbl)"
  by (induction denylist) (auto simp: entryMatches_def truthy_def split: option.splits)

lemma resolveSchema_matches:
  "entryMatches deny (resolveSchema ds t) tbl \<longleftrightarrow> entryMatches deny (resolvedAgainstDefault ds t) tbl"
  by (auto simp: entryMatches_def resolveSchema_def resolvedAgainstDefault_def truthy_def split: option.splits)

lemma checkReferenced_blocked:
  "blocked (checkReferenced ds denylist referenced) \<longleftrightarrow>
     (\<exists>t \<in> set referenced. \<exists>deny \<in> set denylist. entryMatches deny (resolveSchema ds t) (table t))"
proof (induction referenced)
  case Nil
  show ?case by (simp add: notBlocked_def)
next
  case (Cons t ts)
  show ?case
  proof (cases "checkDenylist (resolveSchema ds t) (table t) denylist")
    case None
    then have "\<forall>deny \<in> set denylist. \<not> entryMatches deny (resolveSchema ds t) (table t)"
      by (simp add: checkDenylist_None)
    with None Cons show ?thesis by simp
  next
    case (Some d)
    then show ?thesis using checkDenylist_Some[OF Some] by auto
  qed
qed

lemma checkReferenced_reason:
  "blocked (checkReferenced ds denylist referenced) \<Longrightarrow>
     \<exists>t \<in> set referenced. \<exists>deny \<in> set denylist. entryMatches deny (resolveSchema ds t) (table t) \<and>
        reason (checkReferenced ds denylist referenced) =
          Some (accessReason (if truthy (schema deny) then the (resolveSchema ds t) @ ''.'' @ table t else table t))"
proof (induction referenced)
  case Nil
  then show ?case by (simp add: notBlocked_def)
next
  case (Cons t ts)
  show ?case
  proof (cases "checkDenylist (resolveSchema ds t) (table t) denylist")
    case None
    then show ?thesis using Cons by auto
  next
    case (Some d)
    then show ?thesis using checkDenylist_Some[OF Some] by auto
  qed
qed

text \<open>
  The two loops on the references that the extractor returns: the decision is blocked
  exactly when one of them matches an entry.
\<close>

lemma blocked_iff_extracted_reference_matches:
  assumes "getReferencedTables astify sql = Inr referenced"
  shows "\<exists>d. isQueryBlockedByDenylist astify sql denylist defaultSchema False = Inr d \<and>
           (blocked d \<longleftrightarrow>
              (\<exists>t \<in> set referenced. \<exists>deny \<in> set denylist.
                 entryMatches deny (resolvedAgainstDefault defaultSchema t) (table t)))"
  using assms
  by (auto simp: isQueryBlockedByDenylist_def notBlocked_def checkReferenced_blocked resolveSchema_matches)

lemma unqualified_extracted_reference_blocked:
  assumes "denylist \<noteq> []" and "getReferencedTables astify sql = Inr referenced"
    and "\<exists>t \<in> set referenced. \<not> truthy (schema t)"
  shows "isQueryBlockedByDenylist astify sql denylist defaultSchema True
           = Inr \<lparr> blocked = True, reason = Some unqualifiedReason \<rparr>"
  using assms by (auto simp: isQueryBlockedByDenylist_def)

lemma getReferencedTables_single:
  assumes "astify sql = Inr astOrArray" and "statementsOf astOrArray = [stmt]"
  shows "getReferencedTables astify sql = Inr (getReferencedTablesFromAst stmt)"
  using assms by (simp add: getReferencedTables_def)

section \<open>Characters and normalisation\<close>

lemma toLowerCaseChar_idem: "toLowerCaseChar (toLowerCaseChar c) = toLowerCaseChar c"
  by (auto simp: toLowerCaseChar_def Let_def)

lemma isWhiteSpace_toLowerCaseChar: "isWhiteSpace (toLowerCaseChar c) = isWhiteSpace c"
  by (auto simp: toLowerCaseChar_def isWhiteSpace_def Let_def)

lemma of_char_backtick: "of_char backtick = (96::nat)"
  by (simp add: backtick_def)

lemma eq_backtick_iff: "c = backtick \<longleftrightarrow> (of_char c :: nat) = 96"
  using of_char_eq_iff[of c backtick, where ?'a = nat] by (simp add: of_char_backtick)

lemma toLowerCaseChar_backtick: "toLowerCaseChar c = backtick \<longleftrightarrow> c = backtick"
  unfolding eq_backtick_iff by (auto simp: toLowerCaseChar_def Let_def)

lemma toLower_toUpper: "toLowerCaseChar (toUpperAsciiChar c) = toLowerCaseChar c"
proof (cases "97 \<le> (of_char c :: nat) \<and> (of_char c :: nat) \<le> 122")
  case True
  then have "(of_char c :: nat) - 32 + 32 = of_char c" by simp
  then have "char_of ((of_char c :: nat) - 32 + 32) = c" by simp
  with True show ?thesis by (auto simp: toLowerCaseChar_def toUpperAsciiChar_def Let_def)
next
  case False
  then show ?thesis by (auto simp: toUpperAsciiChar_def Let_def)
qed

lemma isWhiteSpace_toUpper: "isWhiteSpace (toUpperAsciiChar c) = isWhiteSpace c"
  by (auto simp: toUpperAsciiChar_def isWhiteSpace_def Let_def)

lemma toUpper_backtick: "toUpperAsciiChar c = backtick \<longleftrightarrow> c = backtick"
  unfolding eq_backtick_iff by (auto simp: toUpperAsciiChar_def Let_def)

lemma trim_map:
  assumes "\<And>c. isWhiteSpace (f c) = isWhiteSpace c"
  shows "trim (map f s) = map f (trim s)"
proof -
  have "isWhiteSpace \<circ> f = isWhiteSpace" using assms by (simp add: fun_eq_iff)
  then have "\<And>xs. dropWhile isWhiteSpace (map f xs) = map f (dropWhile isWhiteSpace xs)"
    by (simp add: dropWhile_map)
  then show ?thesis by (simp add: trim_def rev_map)
qed

lemma trim_split: "\<exists>ws. dropWhile isWhiteSpace s = trim s @ ws"
proof -
  let ?y = "dropWhile isWhiteSpace s"
  have "trim s @ rev (takeWhile isWhiteSpace (rev ?y))
          = rev (takeWhile isWhiteSpace (rev ?y) @ dropWhile isWhiteSpace (rev ?y))"
    unfolding trim_def rev_append ..
  also have "\<dots> = ?y" unfolding takeWhile_dropWhile_id by simp
  finally show ?thesis by metis
qed

lemma trim_hd: assumes "trim s \<noteq> []" shows "\<not> isWhiteSpace (hd (trim s))"
proof -
  obtain ws where ws: "dropWhile isWhiteSpace s = trim s @ ws" using trim_split by blast
  with assms have ne: "dropWhile isWhiteSpace s \<noteq> []" by simp
  have "hd (dropWhile isWhiteSpace s) = hd (trim s)" using ws assms by simp
  with hd_dropWhile[OF ne] show ?thesis by simp
qed

lemma trim_last: assumes "trim s \<noteq> []" shows "\<not> isWhiteSpace (last (trim s))"
proof -
  let ?z = "dropWhile isWhiteSpace (rev (dropWhile isWhiteSpace s))"
  have ne: "?z \<noteq> []" using assms by (simp add: trim_def)
  have "last (trim s) = hd ?z" using ne by (simp add: trim_def last_rev)
  with hd_dropWhile[OF ne] show ?thesis by simp
qed

lemma set_trim: "set (trim s) \<subseteq> set s"
  by (auto simp: trim_def dest!: set_dropWhileD)

lemma isNormalized_normalize_str: "isNormalized (toLowerCase (trim (removeBackticks s)))"
proof -
  let ?t = "trim (removeBackticks s)"
  have a: "backtick \<notin> set (toLowerCase ?t)"
  proof
    assume "backtick \<in> set (toLowerCase ?t)"
    then obtain c where "c \<in> set ?t" "toLowerCaseChar c = backtick"
      by (auto simp: toLowerCase_def)
    then have "backtick \<in> set ?t" by (simp add: toLowerCaseChar_backtick)
    then have "backtick \<in> set (removeBackticks s)" using set_trim by blast
    then show False by (simp add: removeBackticks_def)
  qed
  have b: "toLowerCase ?t \<noteq> [] \<longrightarrow>
        \<not> isWhiteSpace (hd (toLowerCase ?t)) \<and> \<not> isWhiteSpace (last (toLowerCase ?t))"
    using trim_hd[of "removeBackticks s"] trim_last[of "removeBackticks s"]
    by (simp add: toLowerCase_def hd_map last_map isWhiteSpace_toLowerCaseChar)
  have c: "toLowerCase (toLowerCase ?t) = toLowerCase ?t"
    by (simp add: toLowerCase_def toLowerCaseChar_idem)
  from a b c show ?thesis by (simp add: isNormalized_def)
qed

lemma normalizeIdent_isNormalized: "normalizeIdent p = Some s \<Longrightarrow> isNormalized s"
  by (auto simp: normalizeIdent_def isNormalized_normalize_str split: if_splits)

lemma normalizeIdent_quoteUpper: "normalizeIdent (Some (quoteUpper s)) = normalizeIdent (Some s)"
proof (cases "s = []")
  case True
  then show ?thesis by (simp add: quoteUpper_def)
next
  case False
  have "removeBackticks (quoteUpper s) = map toUpperAsciiChar (removeBackticks s)"
    using False by (simp add: quoteUpper_def removeBackticks_def filter_map comp_def toUpper_backtick)
  then have "toLowerCase (trim (removeBackticks (quoteUpper s))) = toLowerCase (trim (removeBackticks s))"
    by (simp add: trim_map isWhiteSpace_toUpper toLowerCase_def toLower_toUpper)
  with False show ?thesis by (simp add: normalizeIdent_def truthy_def quoteUpper_def)
qed

section \<open>The traversal and the de-duplication\<close>

lemma pushTable_append: "pushTable kvs out = out @ pushTable kvs []"
  by (simp add: pushTable_def Let_def split: json.splits)

lemma fold_visit_pushed:
  assumes "\<And>n out. n \<in> set ns \<Longrightarrow> visit n out = out @ pushed n"
  shows "fold visit ns out = out @ concat (map pushed ns)"
  using assms by (induction ns arbitrary: out) simp_all

lemma visit_pushed: "visit n out = out @ pushed n"
proof (induction n arbitrary: out)
  case (JArr ns)
  then show ?case by (simp add: fold_visit_pushed)
next
  case (JObj kvs)
  have "\<And>n out. n \<in> set (map snd kvs) \<Longrightarrow> visit n out = out @ pushed n"
    using JObj by fastforce
  then have "fold visit (map snd kvs) (pushTable kvs out)
               = pushTable kvs out @ concat (map pushed (map snd kvs))"
    by (rule fold_visit_pushed)
  then show ?case using pushTable_append[of kvs out] by simp
qed simp_all

lemma getReferencedTablesFromAst_pushed: "getReferencedTablesFromAst ast = dedupe {} (pushed ast)"
  by (simp add: getReferencedTablesFromAst_def visit_pushed)

lemma set_dedupe: "set (dedupe seen ts) \<subseteq> set ts"
  by (induction ts arbitrary: seen) auto

lemma dedupe_keys:
  "distinct (map dedupeKey (dedupe seen ts)) \<and> dedupeKey ` set (dedupe seen ts) \<inter> seen = {}"
proof (induction ts arbitrary: seen)
  case Nil
  show ?case by simp
next
  case (Cons t ts)
  show ?case
  proof (cases "dedupeKey t \<in> seen")
    case True
    then show ?thesis using Cons[of seen] by simp
  next
    case False
    then show ?thesis using Cons[of "insert (dedupeKey t) seen"] by auto
  qed
qed

lemma dedupe_covers:
  "t \<in> set ts \<Longrightarrow> dedupeKey t \<notin> seen \<Longrightarrow> \<exists>r \<in> set (dedupe seen ts). dedupeKey r = dedupeKey t"
proof (induction ts arbitrary: seen)
  case Nil
  then show ?case by simp
next
  case (Cons a ts)
  show ?case
  proof (cases "dedupeKey a \<in> seen")
    case True
    with Cons.prems have "t \<in> set ts" by auto
    from Cons.IH[OF this Cons.prems(2)] True show ?thesis by simp
  next
    case False
    show ?thesis
    proof (cases "dedupeKey t = dedupeKey a")
      case True
      with False show ?thesis by simp
    next
      case ne: False
      with Cons.prems have "t \<in> set ts" "dedupeKey t \<notin> insert (dedupeKey a) seen" by auto
      from Cons.IH[OF this] False show ?thesis by simp
    qed
  qed
qed

lemma pushed_subnodes:
  "JObj kvs \<in> set (subnodes ast) \<Longrightarrow> set (pushTable kvs []) \<subseteq> set (pushed ast)"
proof (induction ast)
  case (JArr ns)
  then show ?case by fastforce
next
  case (JObj kvs')
  then show ?case by fastforce
qed simp_all

lemma pushTable_nodeReference:
  "nodeReference kvs = Some r \<Longrightarrow> table r \<noteq> [] \<Longrightarrow> pushTable kvs [] = [r]"
  by (auto simp: nodeReference_def pushTable_def truthy_def Let_def split: json.splits option.splits)

lemma pushTable_normalized:
  "t \<in> set (pushTable kvs []) \<Longrightarrow>
     table t \<noteq> [] \<and> isNormalized (table t) \<and> (\<forall>s. schema t = Some s \<longrightarrow> isNormalized s)"
  by (auto simp: pushTable_def truthy_def Let_def normalizeIdent_isNormalized
           split: json.splits option.splits if_splits)

lemma pushed_normalized:
  "t \<in> set (pushed ast) \<Longrightarrow>
     table t \<noteq> [] \<and> isNormalized (table t) \<and> (\<forall>s. schema t = Some s \<longrightarrow> isNormalized s)"
proof (induction ast)
  case (JArr ns)
  then show ?case by auto
next
  case (JObj kvs)
  then show ?case using pushTable_normalized[of t kvs] by fastforce
qed simp_all

lemma dot_split_unique:
  assumes "a @ ''.'' @ b = a' @ ''.'' @ b'" and "CHR ''.'' \<notin> set a'" and "CHR ''.'' \<notin> set b'"
  shows "a = a' \<and> b = b'"
  using assms by (auto simp: append_eq_append_conv2 Cons_eq_append_conv append_eq_Cons_conv)

lemma dedupeKey_dot_free:
  assumes "dedupeKey t = dedupeKey r" and "CHR ''.'' \<notin> set (table r)"
    and "\<forall>s. schema r = Some s \<longrightarrow> CHR ''.'' \<notin> set s"
  shows "table t = table r \<and> (if truthy (schema r) then schema t = schema r else \<not> truthy (schema t))"
proof -
  let ?k = "\<lambda>x. if truthy (schema x) then the (schema x) else []"
  have "CHR ''.'' \<notin> set (?k r)" using assms(3) by (auto simp: truthy_def split: option.splits)
  with assms(1,2) have "?k t = ?k r \<and> table t = table r"
    unfolding dedupeKey_def by (intro dot_split_unique) auto
  then show ?thesis by (auto simp: truthy_def split: option.splits if_splits)
qed

lemma table_node_represented:
  assumes "JObj kvs \<in> set (subnodes ast)" and "nodeReference kvs = Some r" and "table r \<noteq> []"
    and "CHR ''.'' \<notin> set (table r)" and "\<forall>s. schema r = Some s \<longrightarrow> CHR ''.'' \<notin> set s"
  shows "\<exists>t \<in> set (getReferencedTablesFromAst ast).
           table t = table r \<and> (if truthy (schema r) then schema t = schema r else \<not> truthy (schema t))"
proof -
  have "r \<in> set (pushed ast)"
    using pushed_subnodes[OF assms(1)] pushTable_nodeReference[OF assms(2,3)] by auto
  then obtain t where t: "t \<in> set (dedupe {} (pushed ast))" "dedupeKey t = dedupeKey r"
    using dedupe_covers[of r "pushed ast" "{}"] by auto
  from dedupeKey_dot_free[OF t(2) assms(4,5)] t(1) show ?thesis
    by (auto simp: getReferencedTablesFromAst_pushed)
qed

lemma distinct_map_comp: "distinct (map (\<lambda>x. g (f x)) xs) \<Longrightarrow> distinct (map f xs)"
  by (induction xs) auto

section \<open>Respelled identifiers\<close>

lemma map_of_respelled:
  "map_of (map (\<lambda>kv. (fst kv, f (fst kv) (snd kv))) kvs) k = map_option (f k) (map_of kvs k)"
  by (induction kvs) auto

lemma getProp_mapIdents:
  assumes "k = ''table'' \<or> k = ''db''"
  shows "getProp (map (\<lambda>kv. (fst kv,
                        case snd kv of
                          JStr s \<Rightarrow> if fst kv = ''table'' \<or> fst kv = ''db'' then JStr (g s) else JStr s
                        | _ \<Rightarrow> mapIdents g (snd kv))) kvs) k
         = (case getProp kvs k of JStr s \<Rightarrow> JStr (g s) | v \<Rightarrow> mapIdents g v)"
proof -
  let ?f = "\<lambda>k v. case v of
                JStr s \<Rightarrow> if k = ''table'' \<or> k = ''db'' then JStr (g s) else JStr s
              | _ \<Rightarrow> mapIdents g v"
  have "map_of (map (\<lambda>kv. (fst kv, ?f (fst kv) (snd kv))) kvs) k = map_option (?f k) (map_of kvs k)"
    by (rule map_of_respelled)
  then show ?thesis using assms
    by (auto simp: getProp_def split: option.splits json.splits)
qed

lemma pushTable_mapIdents:
  assumes "\<forall>s. normalizeIdent (Some (g s)) = normalizeIdent (Some s)"
  shows "pushTable (map (\<lambda>kv. (fst kv,
                        case snd kv of
                          JStr s \<Rightarrow> if fst kv = ''table'' \<or> fst kv = ''db'' then JStr (g s) else JStr s
                        | _ \<Rightarrow> mapIdents g (snd kv))) kvs) out
         = pushTable kvs out"
  unfolding pushTable_def getProp_mapIdents[of "''table''", simplified]
    getProp_mapIdents[of "''db''", simplified]
  by (cases "getProp kvs ''table''"; cases "getProp kvs ''db''") (simp_all add: assms Let_def)

lemma pushed_mapIdents:
  assumes "\<forall>s. normalizeIdent (Some (g s)) = normalizeIdent (Some s)"
  shows "pushed (mapIdents g ast) = pushed ast"
proof (induction ast)
  case (JArr ns)
  then have "map (\<lambda>n. pushed (mapIdents g n)) ns = map pushed ns" by (intro map_cong) auto
  then have "concat (map (\<lambda>n. pushed (mapIdents g n)) ns) = concat (map pushed ns)"
    by (rule arg_cong)
  then show ?case by (simp add: comp_def)
next
  case (JObj kvs)
  have "pushed (case snd kv of
                  JStr s \<Rightarrow> if fst kv = ''table'' \<or> fst kv = ''db'' then JStr (g s) else JStr s
                | _ \<Rightarrow> mapIdents g (snd kv)) = pushed (snd kv)" if "kv \<in> set kvs" for kv
  proof -
    have "pushed (mapIdents g (snd kv)) = pushed (snd kv)"
      using JObj[of kv "snd kv"] that by (cases kv) simp
    then show ?thesis by (cases "snd kv") simp_all
  qed
  then have "map (\<lambda>kv. pushed (case snd kv of
                  JStr s \<Rightarrow> if fst kv = ''table'' \<or> fst kv = ''db'' then JStr (g s) else JStr s
                | _ \<Rightarrow> mapIdents g (snd kv))) kvs = map (\<lambda>kv. pushed (snd kv)) kvs"
    by (intro map_cong) auto
  then have "concat (map (\<lambda>kv. pushed (case snd kv of
                  JStr s \<Rightarrow> if fst kv = ''table'' \<or> fst kv = ''db'' then JStr (g s) else JStr s
                | _ \<Rightarrow> mapIdents g (snd kv))) kvs) = concat (map (\<lambda>kv. pushed (snd kv)) kvs)"
    by (rule arg_cong)
  then show ?case by (simp add: comp_def pushTable_mapIdents[OF assms])
qed simp_all

lemma statementsOf_mapIdents: "statementsOf (mapIdents g a) = map (mapIdents g) (statementsOf a)"
  by (cases a) (simp_all add: statementsOf_def)

lemma getReferencedTables_mapIdents:
  assumes "\<forall>s. normalizeIdent (Some (g s)) = normalizeIdent (Some s)"
  shows "getReferencedTables (\<lambda>q. case astify q of Inl e \<Rightarrow> Inl e | Inr a \<Rightarrow> Inr (mapIdents g a)) sql
         = getReferencedTables astify sql"
proof (cases "astify sql")
  case (Inl e)
  then show ?thesis by (simp add: getReferencedTables_def)
next
  case (Inr a)
  show ?thesis
  proof (cases "statementsOf a")
    case Nil
    with Inr show ?thesis by (simp add: getReferencedTables_def statementsOf_mapIdents)
  next
    case (Cons x xs)
    with Inr show ?thesis
      by (simp add: getReferencedTables_def statementsOf_mapIdents
          getReferencedTablesFromAst_pushed pushed_mapIdents[OF assms])
  qed
qed

lemma resolveSchema_respelled:
  assumes "\<forall>s. normalizeIdent (Some (g s)) = normalizeIdent (Some s)"
  shows "resolveSchema (map_option g ds) t = resolveSchema ds t"
  using assms by (cases ds) (simp_all add: resolveSchema_def)

lemma checkReferenced_respelled:
  assumes "\<forall>s. normalizeIdent (Some (g s)) = normalizeIdent (Some s)"
  shows "checkReferenced (map_option g ds) denylist referenced = checkReferenced ds denylist referenced"
  by (induction referenced) (simp_all add: resolveSchema_respelled[OF assms] split: option.splits)

section \<open>The example inputs, evaluated\<close>

lemma example_users_refs:
  "getReferencedTables exampleParser ''SELECT * FROM users'' = Inr [\<lparr>schema = None, table = ''users''\<rparr>]"
  by code_simp

lemma example_orders_refs:
  "getReferencedTables exampleParser ''SELECT * FROM orders'' = Inr [\<lparr>schema = None, table = ''orders''\<rparr>]"
  by code_simp

lemma example_prod_users_refs:
  "getReferencedTables exampleParser ''SELECT * FROM prod.users'' = Inr [\<lparr>schema = Some ''prod'', table = ''users''\<rparr>]"
  by code_simp

lemma example_select_one_refs: "getReferencedTables exampleParser ''SELECT 1'' = Inr []"
  by code_simp

text \<open>
  The heuristic \<open>extractSchemaFromQuery\<close> on a few statements and environments.
\<close>

lemma extractSchemaFromQuery_examples:
  "extractSchemaFromQuery \<lparr>MYSQL_DB = None, isMultiDbMode = False\<rparr> ''SELECT * FROM users'' = None
   \<and> extractSchemaFromQuery \<lparr>MYSQL_DB = None, isMultiDbMode = False\<rparr> ''SELECT * FROM users -- USE prod'' = Some ''prod''
   \<and> extractSchemaFromQuery \<lparr>MYSQL_DB = None, isMultiDbMode = False\<rparr> ''SELECT * FROM prod.users'' = Some ''prod''
   \<and> extractSchemaFromQuery \<lparr>MYSQL_DB = Some ''prod'', isMultiDbMode = False\<rparr> ''SELECT * FROM users'' = Some ''prod''
   \<and> extractSchemaFromQuery \<lparr>MYSQL_DB = Some ''prod'', isMultiDbMode = True\<rparr> ''USE `other`'' = Some ''other''"
  by code_simp

lemma not_sublist_by_char: "c \<in> set xs \<Longrightarrow> c \<notin> set ys \<Longrightarrow> \<not> sublist xs ys"
  using set_mono_sublist by fastforce

section \<open>The claims\<close>

text \<open>
  Claim C1, as amended. In multi-DB mode with a non-empty denylist, a statement whose
  tree has, at any depth, a node with a string-valued \<open>table\<close> field, a non-empty
  normalised table name without a dot, and no schema (no string \<open>db\<close>, or one
  that is empty once normalised) is blocked, with the non-empty reason about
  unqualified references, whatever the denylist entries are.
\<close>

theorem multi_db_unqualified_table_node_blocked:
  assumes "denylist \<noteq> []"
    and "astify sql = Inr astOrArray" and "statementsOf astOrArray = [stmt]"
    and "JObj kvs \<in> set (subnodes stmt)" and "nodeReference kvs = Some r"
    and "table r \<noteq> []" and "CHR ''.'' \<notin> set (table r)" and "\<not> truthy (schema r)"
  shows "isQueryBlockedByDenylist astify sql denylist defaultSchema True
           = Inr \<lparr> blocked = True, reason = Some unqualifiedReason \<rparr> \<and> unqualifiedReason \<noteq> []"
proof -
  have "\<forall>s. schema r = Some s \<longrightarrow> CHR ''.'' \<notin> set s"
    using assms(8) by (auto simp: truthy_def)
  from table_node_represented[OF assms(4,5,6,7) this] assms(8)
  have "\<exists>t \<in> set (getReferencedTablesFromAst stmt). \<not> truthy (schema t)"
    by auto
  from unqualified_extracted_reference_blocked[where astify = astify and sql = sql,
      OF assms(1) getReferencedTables_single[where astify = astify and sql = sql, OF assms(2,3)] this]
  show ?thesis by (simp add: unqualifiedReason_def)
qed

theorem multi_db_unqualified_table_node_blocked_witness:
  "exampleParser ''SELECT * FROM users'' = Inr (selectAst starColumns (JArr [tableNode None ''users'']))
   \<and> JObj [(''db'', JNull), (''table'', JStr ''users''), (''as'', JNull)]
        \<in> set (subnodes (selectAst starColumns (JArr [tableNode None ''users''])))
   \<and> nodeReference [(''db'', JNull), (''table'', JStr ''users''), (''as'', JNull)]
        = Some \<lparr>schema = None, table = ''users''\<rparr>
   \<and> isQueryBlockedByDenylist exampleParser ''SELECT * FROM users''
       [\<lparr>schema = Some ''prod'', table = ''orders''\<rparr>] None True
     = Inr \<lparr> blocked = True, reason = Some unqualifiedReason \<rparr> \<and> unqualifiedReason \<noteq> []"
proof -
  let ?stmt = "selectAst starColumns (JArr [tableNode None ''users''])"
  let ?kvs = "[(''db'', JNull), (''table'', JStr ''users''), (''as'', JNull)]"
  let ?r = "\<lparr>schema = None, table = ''users''\<rparr>"
  have parsed: "exampleParser ''SELECT * FROM users'' = Inr ?stmt" by code_simp
  have one: "statementsOf ?stmt = [?stmt]" by code_simp
  have node: "JObj ?kvs \<in> set (subnodes ?stmt)" by code_simp
  have ref: "nodeReference ?kvs = Some ?r" by code_simp
  have name: "table ?r \<noteq> []" "CHR ''.'' \<notin> set (table ?r)" "\<not> truthy (schema ?r)"
    by (simp_all add: truthy_def)
  have dl: "[\<lparr>schema = Some ''prod'', table = ''orders''\<rparr>] \<noteq> []" by simp
  from parsed node ref
    multi_db_unqualified_table_node_blocked[where astify = exampleParser and sql = "''SELECT * FROM users''" and defaultSchema = None,
       OF dl parsed one node ref name]
  show ?thesis by blast
qed

text \<open>
  Claim C1 as stated fails: the statement references the table of the blank name
  without a schema, the mode is multi-DB and the denylist is not empty; the guard
  \<open>if (table)\<close> records no reference for it, and the query is not blocked.
\<close>

theorem blank_unqualified_table_not_blocked:
  "exampleParser ''SELECT * FROM ` `'' = Inr (selectAst starColumns (JArr [tableNode None '' '']))
   \<and> JObj [(''db'', JNull), (''table'', JStr '' ''), (''as'', JNull)]
        \<in> set (subnodes (selectAst starColumns (JArr [tableNode None '' ''])))
   \<and> getProp [(''db'', JNull), (''table'', JStr '' ''), (''as'', JNull)] ''table'' = JStr '' ''
   \<and> getProp [(''db'', JNull), (''table'', JStr '' ''), (''as'', JNull)] ''db'' = JNull
   \<and> isQueryBlockedByDenylist exampleParser ''SELECT * FROM ` `''
        [\<lparr>schema = Some ''prod'', table = ''users''\<rparr>] None True
      = Inr \<lparr> blocked = False, reason = None \<rparr>"
  by code_simp

text \<open>
  Claim C2. In single-DB mode the query is to be blocked exactly when some table of the
  statement matches some denylist entry. The code misses a match when two references
  share a de-duplication key: \<open>a.`b.c`\<close> is on the denylist and blocked when
  queried alone, and is not blocked after \<open>`a.b`.c\<close> in the same statement,
  whose key \<open>a.b.c\<close> is the same, so that the second reference is dropped
  before the denylist is consulted.
\<close>

theorem denylisted_table_hidden_by_key_collision:
  "exampleParser ''SELECT * FROM `a.b`.c, a.`b.c`''
      = Inr (selectAst starColumns (JArr [tableNode (Some ''a.b'') ''c'', tableNode (Some ''a'') ''b.c'']))
   \<and> JObj [(''db'', JStr ''a''), (''table'', JStr ''b.c''), (''as'', JNull)]
        \<in> set (subnodes (selectAst starColumns (JArr [tableNode (Some ''a.b'') ''c'', tableNode (Some ''a'') ''b.c''])))
   \<and> nodeReference [(''db'', JStr ''a''), (''table'', JStr ''b.c''), (''as'', JNull)]
        = Some \<lparr>schema = Some ''a'', table = ''b.c''\<rparr>
   \<and> entryMatches \<lparr>schema = Some ''a'', table = ''b.c''\<rparr>
        (resolvedAgainstDefault None \<lparr>schema = Some ''a'', table = ''b.c''\<rparr>) ''b.c''
   \<and> getReferencedTables exampleParser ''SELECT * FROM `a.b`.c, a.`b.c`''
      = Inr [\<lparr>schema = Some ''a.b'', table = ''c''\<rparr>]
   \<and> isQueryBlockedByDenylist exampleParser ''SELECT * FROM `a.b`.c, a.`b.c`''
        [\<lparr>schema = Some ''a'', table = ''b.c''\<rparr>] None False
      = Inr \<lparr> blocked = False, reason = None \<rparr>
   \<and> isQueryBlockedByDenylist exampleParser ''SELECT * FROM a.`b.c`''
        [\<lparr>schema = Some ''a'', table = ''b.c''\<rparr>] None False
      = Inr \<lparr> blocked = True, reason = Some (accessReason ''a.b.c'') \<rparr>"
  by code_simp

text \<open>
  Claim C3. When the parser throws, or returns an array of zero or of more than one
  statement, \<open>getReferencedTables\<close> and \<open>getQueryTypes\<close> fail with an error,
  whatever the statements are.
\<close>

theorem single_statement_enforced:
  "(astify sql = Inl e \<longrightarrow>
      getReferencedTables astify sql = Inl e \<and> getQueryTypes astify sql = Inl (ParsingFailed e))
   \<and> (astify sql = Inr (JArr stmts) \<and> length stmts \<noteq> 1 \<longrightarrow>
      getReferencedTables astify sql = Inl SingleStatementOnly
      \<and> getQueryTypes astify sql = Inl (ParsingFailed SingleStatementOnly))"
  by (simp add: getReferencedTables_def getQueryTypes_def getQueryTypesTry_def statementsOf_def)

theorem single_statement_enforced_witness:
  "getReferencedTables exampleParser ''SELECT 1; SELECT 2'' = Inl SingleStatementOnly
   \<and> getQueryTypes exampleParser ''SELECT 1; SELECT 2'' = Inl (ParsingFailed SingleStatementOnly)
   \<and> getReferencedTables (\<lambda>sql. Inr (JArr [])) [] = Inl SingleStatementOnly
   \<and> getQueryTypes (\<lambda>sql. Inr (JArr [])) [] = Inl (ParsingFailed SingleStatementOnly)
   \<and> getReferencedTables exampleParser ''SELEC * FROM'' = Inl (ParserError ''Syntax error'')
   \<and> getQueryTypes exampleParser ''SELEC * FROM'' = Inl (ParsingFailed (ParserError ''Syntax error''))"
proof -
  have two: "exampleParser ''SELECT 1; SELECT 2''
      = Inr (JArr [selectAst (numberColumns 1) JNull, selectAst (numberColumns 2) JNull])
    \<and> length [selectAst (numberColumns 1) JNull, selectAst (numberColumns 2) JNull] \<noteq> 1"
    by code_simp
  have none: "(\<lambda>sql. Inr (JArr [])) [] = (Inr (JArr []) :: error + json) \<and> length ([] :: json list) \<noteq> 1"
    by simp
  have bad: "exampleParser ''SELEC * FROM'' = Inl (ParserError ''Syntax error'')"
    by code_simp
  from single_statement_enforced[of exampleParser "''SELECT 1; SELECT 2''" _ "[selectAst (numberColumns 1) JNull, selectAst (numberColumns 2) JNull]"]
    two
  have a: "getReferencedTables exampleParser ''SELECT 1; SELECT 2'' = Inl SingleStatementOnly
   \<and> getQueryTypes exampleParser ''SELECT 1; SELECT 2'' = Inl (ParsingFailed SingleStatementOnly)"
    by blast
  from single_statement_enforced[of "\<lambda>sql. Inr (JArr [])" "[]" _ "[]"] none
  have b: "getReferencedTables (\<lambda>sql. Inr (JArr [])) [] = Inl SingleStatementOnly
   \<and> getQueryTypes (\<lambda>sql. Inr (JArr [])) [] = Inl (ParsingFailed SingleStatementOnly)"
    by blast
  from single_statement_enforced[of exampleParser "''SELEC * FROM''" "ParserError ''Syntax error''"] bad
  have c: "getReferencedTables exampleParser ''SELEC * FROM'' = Inl (ParserError ''Syntax error'')
   \<and> getQueryTypes exampleParser ''SELEC * FROM'' = Inl (ParsingFailed (ParserError ''Syntax error''))"
    by blast
  from a b c show ?thesis by blast
qed

text \<open>
  Claim C4, as amended. Matching ignores letter case and backtick quoting on the side
  of the query and of the default schema: respelling every \<open>table\<close> and \<open>db\<close>
  identifier of the parsed statement, and the default schema, by a function that keeps
  the normalised form (such as \<open>quoteUpper\<close>) leaves the result unchanged. Denylist
  entries are compared as they are given.
\<close>

theorem query_side_matching_ignores_case_and_quoting:
  assumes "\<forall>s. normalizeIdent (Some (g s)) = normalizeIdent (Some s)"
  shows "isQueryBlockedByDenylist
           (\<lambda>q. case astify q of Inl e \<Rightarrow> Inl e | Inr a \<Rightarrow> Inr (mapIdents g a))
           sql denylist (map_option g defaultSchema) multiDbMode
         = isQueryBlockedByDenylist astify sql denylist defaultSchema multiDbMode"
  unfolding isQueryBlockedByDenylist_def getReferencedTables_mapIdents[OF assms]
    checkReferenced_respelled[OF assms]
  by (rule refl)

theorem query_side_matching_ignores_case_and_quoting_witness:
  "(case exampleParser ''SELECT * FROM prod.users'' of Inl e \<Rightarrow> Inl e | Inr a \<Rightarrow> Inr (mapIdents quoteUpper a))
     = Inr (selectAst starColumns (JArr [tableNode (Some ''`PROD`'') ''`USERS`'']))
   \<and> isQueryBlockedByDenylist
        (\<lambda>q. case exampleParser q of Inl e \<Rightarrow> Inl e | Inr a \<Rightarrow> Inr (mapIdents quoteUpper a))
        ''SELECT * FROM prod.users'' [\<lparr>schema = Some ''prod'', table = ''users''\<rparr>]
        (map_option quoteUpper None) True
     = Inr \<lparr> blocked = True, reason = Some (accessReason ''prod.users'') \<rparr>"
proof -
  have spelled: "(case exampleParser ''SELECT * FROM prod.users'' of Inl e \<Rightarrow> Inl e | Inr a \<Rightarrow> Inr (mapIdents quoteUpper a))
     = Inr (selectAst starColumns (JArr [tableNode (Some ''`PROD`'') ''`USERS`'']))"
    by code_simp
  have plain: "isQueryBlockedByDenylist exampleParser
        ''SELECT * FROM prod.users'' [\<lparr>schema = Some ''prod'', table = ''users''\<rparr>] None True
     = Inr \<lparr> blocked = True, reason = Some (accessReason ''prod.users'') \<rparr>"
    by code_simp
  have same: "\<forall>s. normalizeIdent (Some (quoteUpper s)) = normalizeIdent (Some s)"
    by (simp add: normalizeIdent_quoteUpper)
  from query_side_matching_ignores_case_and_quoting[OF same, of exampleParser "''SELECT * FROM prod.users''" _ None True] plain spelled
  show ?thesis by simp
qed

text \<open>
  Claim C4 as stated fails on the side of the denylist: the entries \<open>users\<close> and
  \<open>USERS\<close> differ in letter case only, and the same query is blocked by the first
  and not by the second.
\<close>

theorem denylist_entry_case_is_significant:
  "isQueryBlockedByDenylist exampleParser ''SELECT * FROM users''
       [\<lparr>schema = None, table = ''users''\<rparr>] None False
     = Inr \<lparr> blocked = True, reason = Some (accessReason ''users'') \<rparr>
   \<and> isQueryBlockedByDenylist exampleParser ''SELECT * FROM users''
       [\<lparr>schema = None, table = ''USERS''\<rparr>] None False
     = Inr \<lparr> blocked = False, reason = None \<rparr>"
  by code_simp

text \<open>
  Claim C5. With an empty denylist the decision is not-blocked for every SQL string
  and every behaviour of the parser (it is not consulted); and the decision is
  not-blocked whenever the statement references no table.
\<close>

theorem empty_denylist_or_no_tables_not_blocked: 
  "isQueryBlockedByDenylist astify sql [] defaultSchema multiDbMode = Inr \<lparr> blocked = False, reason = None \<rparr>
   \<and> (getReferencedTables astify sql = Inr [] \<longrightarrow>
        isQueryBlockedByDenylist astify sql denylist defaultSchema multiDbMode = Inr \<lparr> blocked = False, reason = None \<rparr>)"
  by (simp add: isQueryBlockedByDenylist_def notBlocked_def)

theorem empty_denylist_or_no_tables_not_blocked_witness:
  "isQueryBlockedByDenylist (\<lambda>sql. Inl (ParserError ''Syntax error'')) ''SELEC * FROM'' [] None True
      = Inr \<lparr> blocked = False, reason = None \<rparr>
   \<and> isQueryBlockedByDenylist exampleParser ''SELECT 1'' [\<lparr>schema = None, table = ''users''\<rparr>] None True
      = Inr \<lparr> blocked = False, reason = None \<rparr>"
  using empty_denylist_or_no_tables_not_blocked[of "\<lambda>sql. Inl (ParserError ''Syntax error'')" "''SELEC * FROM''" None True]
    empty_denylist_or_no_tables_not_blocked[of exampleParser "''SELECT 1''" None True "[\<lparr>schema = None, table = ''users''\<rparr>]"]
    example_select_one_refs
  by blast

text \<open>
  Claim C6, as amended. The result of \<open>getReferencedTablesFromAst\<close> has no two
  elements with the same schema and table; every table in it is non-empty, and every
  table and every schema in it is free of backticks, of leading and trailing blanks and
  of upper-case letters; and every object node at any depth whose \<open>table\<close> is a
  string with a non-empty normalised form, and whose normalised names contain no dot,
  is represented in the result by its table and schema (an empty schema counting as
  no schema).
\<close>

theorem referenced_tables_distinct_normalized_covering:
  "distinct (map (\<lambda>t. (schema t, table t)) (getReferencedTablesFromAst ast))
   \<and> (\<forall>t \<in> set (getReferencedTablesFromAst ast).
         table t \<noteq> [] \<and> isNormalized (table t) \<and> (\<forall>s. schema t = Some s \<longrightarrow> isNormalized s))
   \<and> (\<forall>kvs r. JObj kvs \<in> set (subnodes ast) \<and> nodeReference kvs = Some r \<and> table r \<noteq> []
          \<and> CHR ''.'' \<notin> set (table r) \<and> (\<forall>s. schema r = Some s \<longrightarrow> CHR ''.'' \<notin> set s)
        \<longrightarrow> (\<exists>t \<in> set (getReferencedTablesFromAst ast).
               table t = table r \<and> (if truthy (schema r) then schema t = schema r else \<not> truthy (schema t))))"
proof (intro conjI allI impI ballI)
  let ?res = "getReferencedTablesFromAst ast"
  define g :: "string option \<times> string \<Rightarrow> string"
    where "g = (\<lambda>p. (if truthy (fst p) then the (fst p) else []) @ ''.'' @ snd p)"
  have key: "dedupeKey = (\<lambda>t. g (schema t, table t))"
    by (simp add: fun_eq_iff dedupeKey_def g_def)
  have "distinct (map dedupeKey ?res)"
    using dedupe_keys[of "{}" "pushed ast"] by (simp add: getReferencedTablesFromAst_pushed)
  then have "distinct (map (\<lambda>t. g (schema t, table t)) ?res)"
    by (simp add: key)
  then show "distinct (map (\<lambda>t. (schema t, table t)) ?res)"
    by (rule distinct_map_comp)
next
  fix t assume "t \<in> set (getReferencedTablesFromAst ast)"
  then have "t \<in> set (pushed ast)"
    using set_dedupe by (auto simp: getReferencedTablesFromAst_pushed)
  from pushed_normalized[OF this]
  show "table t \<noteq> []" "isNormalized (table t)" by simp_all
  fix s assume "schema t = Some s"
  with pushed_normalized[OF \<open>t \<in> set (pushed ast)\<close>] show "isNormalized s" by simp
next
  fix kvs r
  assume a: "JObj kvs \<in> set (subnodes ast) \<and> nodeReference kvs = Some r \<and> table r \<noteq> []
          \<and> CHR ''.'' \<notin> set (table r) \<and> (\<forall>s. schema r = Some s \<longrightarrow> CHR ''.'' \<notin> set s)"
  then have "r \<in> set (pushed ast)"
    using pushed_subnodes[of kvs ast] pushTable_nodeReference[of kvs r] by auto
  then obtain t where t: "t \<in> set (dedupe {} (pushed ast))" "dedupeKey t = dedupeKey r"
    using dedupe_covers[of r "pushed ast" "{}"] by auto
  from dedupeKey_dot_free[OF t(2)] a t(1)
  show "\<exists>t \<in> set (getReferencedTablesFromAst ast).
               table t = table r \<and> (if truthy (schema r) then schema t = schema r else \<not> truthy (schema t))"
    by (auto simp: getReferencedTablesFromAst_pushed)
qed

theorem referenced_tables_distinct_normalized_covering_witness:
  "getReferencedTablesFromAst
      (selectAst starColumns (JArr [tableNode (Some ''Prod'') ''`Users`'', tableNode None ''orders'',
                                    tableNode (Some ''PROD'') '' users '']))
     = [\<lparr>schema = Some ''prod'', table = ''users''\<rparr>, \<lparr>schema = None, table = ''orders''\<rparr>]
   \<and> distinct (map (\<lambda>t. (schema t, table t))
        [\<lparr>schema = Some ''prod'', table = ''users''\<rparr>, \<lparr>schema = None, table = ''orders''\<rparr>])
   \<and> isNormalized ''users'' \<and> isNormalized ''prod'' \<and> isNormalized ''orders''
   \<and> (\<exists>t \<in> set [\<lparr>schema = Some ''prod'', table = ''users''\<rparr>, \<lparr>schema = None, table = ''orders''\<rparr>].
         table t = ''users'' \<and> schema t = Some ''prod'')"
proof -
  let ?ast = "selectAst starColumns (JArr [tableNode (Some ''Prod'') ''`Users`'', tableNode None ''orders'',
                                    tableNode (Some ''PROD'') '' users ''])"
  let ?kvs = "[(''db'', JStr ''PROD''), (''table'', JStr '' users ''), (''as'', JNull)]"
  let ?r = "\<lparr>schema = Some ''prod'', table = ''users''\<rparr>"
  have res: "getReferencedTablesFromAst ?ast
     = [\<lparr>schema = Some ''prod'', table = ''users''\<rparr>, \<lparr>schema = None, table = ''orders''\<rparr>]"
    by code_simp
  have node: "JObj ?kvs \<in> set (subnodes ?ast)" by code_simp
  have ref: "nodeReference ?kvs = Some ?r" by code_simp
  have free: "table ?r \<noteq> [] \<and> CHR ''.'' \<notin> set (table ?r) \<and> (\<forall>s. schema ?r = Some s \<longrightarrow> CHR ''.'' \<notin> set s)"
    by auto
  have tr: "truthy (schema ?r)" by (simp add: truthy_def)
  note c = referenced_tables_distinct_normalized_covering[of ?ast, unfolded res]
  from c have d: "distinct (map (\<lambda>t. (schema t, table t))
        [\<lparr>schema = Some ''prod'', table = ''users''\<rparr>, \<lparr>schema = None, table = ''orders''\<rparr>])"
    by blast
  from c have n: "isNormalized ''users'' \<and> isNormalized ''prod'' \<and> isNormalized ''orders''"
    by simp
  from c node ref free have "\<exists>t \<in> set [\<lparr>schema = Some ''prod'', table = ''users''\<rparr>, \<lparr>schema = None, table = ''orders''\<rparr>].
         table t = table ?r \<and> (if truthy (schema ?r) then schema t = schema ?r else \<not> truthy (schema t))"
    by blast
  with tr have e: "\<exists>t \<in> set [\<lparr>schema = Some ''prod'', table = ''users''\<rparr>, \<lparr>schema = None, table = ''orders''\<rparr>].
         table t = ''users'' \<and> schema t = Some ''prod''"
    by simp
  from res d n e show ?thesis by blast
qed

text \<open>
  Claim C6 as stated fails: a node whose \<open>table\<close> is the string of one blank carries
  a string-valued \<open>table\<close> field and contributes no reference, by the guard
  \<open>if (table)\<close>.
\<close>

theorem blank_table_name_contributes_nothing:
  "getProp [(''db'', JNull), (''table'', JStr '' ''), (''as'', JNull)] ''table'' = JStr '' ''
   \<and> JObj [(''db'', JNull), (''table'', JStr '' ''), (''as'', JNull)]
        \<in> set (subnodes (selectAst starColumns (JArr [tableNode None '' ''])))
   \<and> getReferencedTablesFromAst (selectAst starColumns (JArr [tableNode None '' ''])) = []"
  by code_simp

text \<open>
  The de-duplication key joins schema and table with a dot, so two different
  references whose names contain dots can share a key; the later one is then dropped.
  The amended claim C6 says nothing about such names.
\<close>

lemma dedupe_key_collision:
  "getReferencedTablesFromAst
     (selectAst starColumns (JArr [tableNode (Some ''a.b'') ''c'', tableNode (Some ''a'') ''b.c'']))
   = [\<lparr>schema = Some ''a.b'', table = ''c''\<rparr>]"
  by code_simp

text \<open>
  Claim C8, as amended. When a query is blocked because a referenced table matched a
  denylist entry, the reason is \<open>Access to table '<name>' is blocked by
  MYSQL_TABLE_DENYLIST\<close>, where \<open><name>\<close> is the matched table: qualified with its
  explicit or default-resolved schema when the matching entry is schema-qualified, and
  the bare table name when the matching entry is schema-less.
\<close>

theorem blocked_reason_names_matched_table:
  assumes "getReferencedTables astify sql = Inr referenced"
    and "isQueryBlockedByDenylist astify sql denylist defaultSchema multiDbMode = Inr d"
    and "blocked d"
    and "\<not> (multiDbMode \<and> (\<exists>t \<in> set referenced. \<not> truthy (schema t)))"
  shows "\<exists>t \<in> set referenced. \<exists>deny \<in> set denylist.
           entryMatches deny (resolvedAgainstDefault defaultSchema t) (table t) \<and>
           reason d = Some (accessReason
             (if truthy (schema deny) then the (resolvedAgainstDefault defaultSchema t) @ ''.'' @ table t
              else table t))"
proof -
  have d: "d = checkReferenced defaultSchema denylist referenced"
    using assms by (auto simp: isQueryBlockedByDenylist_def notBlocked_def split: if_splits)
  from checkReferenced_reason[of defaultSchema denylist referenced] assms(3) d
  obtain t deny where td: "t \<in> set referenced" "deny \<in> set denylist"
     "entryMatches deny (resolveSchema defaultSchema t) (table t)"
     "reason d = Some (accessReason (if truthy (schema deny) then the (resolveSchema defaultSchema t) @ ''.'' @ table t else table t))"
    by auto
  have "truthy (schema deny) \<Longrightarrow> resolveSchema defaultSchema t = resolvedAgainstDefault defaultSchema t"
    using td(3) by (auto simp: entryMatches_def resolveSchema_def resolvedAgainstDefault_def truthy_def split: option.splits if_splits)
  with td show ?thesis using resolveSchema_matches by (auto split: if_splits)
qed

theorem blocked_reason_names_matched_table_witness:
  "isQueryBlockedByDenylist exampleParser ''SELECT * FROM users''
        [\<lparr>schema = Some ''prod'', table = ''users''\<rparr>] (Some ''prod'') False
      = Inr \<lparr> blocked = True, reason = Some (accessReason ''prod.users'') \<rparr>
   \<and> (\<exists>t \<in> set [\<lparr>schema = None, table = ''users''\<rparr>].
        \<exists>deny \<in> set [\<lparr>schema = Some ''prod'', table = ''users''\<rparr>].
           entryMatches deny (resolvedAgainstDefault (Some ''prod'') t) (table t) \<and>
           reason \<lparr> blocked = True, reason = Some (accessReason ''prod.users'') \<rparr>
             = Some (accessReason
                 (if truthy (schema deny) then the (resolvedAgainstDefault (Some ''prod'') t) @ ''.'' @ table t
                  else table t)))"
proof -
  have res: "isQueryBlockedByDenylist exampleParser ''SELECT * FROM users''
        [\<lparr>schema = Some ''prod'', table = ''users''\<rparr>] (Some ''prod'') False
      = Inr \<lparr> blocked = True, reason = Some (accessReason ''prod.users'') \<rparr>"
    by code_simp
  from blocked_reason_names_matched_table[OF example_users_refs res] res show ?thesis by simp
qed

text \<open>
  Claim C8 as stated fails: \<open>prod.users\<close> is referenced with its schema, the
  schema-less entry \<open>users\<close> blocks it, and the reason names \<open>users\<close> without the
  schema.
\<close>

theorem schemaless_entry_reason_is_unqualified:
  "getReferencedTables exampleParser ''SELECT * FROM prod.users''
      = Inr [\<lparr>schema = Some ''prod'', table = ''users''\<rparr>]
   \<and> isQueryBlockedByDenylist exampleParser ''SELECT * FROM prod.users''
        [\<lparr>schema = None, table = ''users''\<rparr>] None False
      = Inr \<lparr> blocked = True, reason = Some (accessReason ''users'') \<rparr>
   \<and> \<not> sublist ''prod.users'' (accessReason ''users'')"
proof -
  have a: "isQueryBlockedByDenylist exampleParser ''SELECT * FROM prod.users''
        [\<lparr>schema = None, table = ''users''\<rparr>] None False
      = Inr \<lparr> blocked = True, reason = Some (accessReason ''users'') \<rparr>"
    by code_simp
  have b: "\<not> sublist ''prod.users'' (accessReason ''users'')"
    by (rule not_sublist_by_char[of "CHR ''p''"]) (simp_all add: accessReason_def apostrophe_def)
  from example_prod_users_refs a b show ?thesis by blast
qed

text \<open>
  Claim C9. In read-only mode a statement classified as insert, update, delete or ddl
  whose allow-flag is off returns an error result, and no connection event
  (in particular no transaction-begin) is added to the log.
\<close>

theorem read_only_blocked_without_transaction:
  assumes "getQueryTypes astify sql = Inr [ty]"
    and "(ty = ''insert'' \<and> \<not> allowInsert cfg) \<or> (ty = ''update'' \<and> \<not> allowUpdate cfg)
         \<or> (ty = ''delete'' \<and> \<not> allowDelete cfg) \<or> (isDdl ty \<and> \<not> allowDdl cfg)"
  shows "isError (fst (executeReadOnlyQuery cfg isDdl astify run sql events))
         \<and> snd (executeReadOnlyQuery cfg isDdl astify run sql events) = events"
  using assms by (auto simp: executeReadOnlyQuery_def blockedOperation_def)

theorem read_only_blocked_without_transaction_witness:
  "getQueryTypes exampleParser ''INSERT INTO test (name) VALUES (1)'' = Inr [''insert'']
   \<and> isError (fst (executeReadOnlyQuery
        \<lparr>allowInsert = False, allowUpdate = False, allowDelete = False, allowDdl = False\<rparr>
        (\<lambda>ty. ty \<in> set [''create'', ''alter'', ''drop'', ''truncate''])
        exampleParser (\<lambda>sql. Inr []) ''INSERT INTO test (name) VALUES (1)'' []))
   \<and> snd (executeReadOnlyQuery
        \<lparr>allowInsert = False, allowUpdate = False, allowDelete = False, allowDdl = False\<rparr>
        (\<lambda>ty. ty \<in> set [''create'', ''alter'', ''drop'', ''truncate''])
        exampleParser (\<lambda>sql. Inr []) ''INSERT INTO test (name) VALUES (1)'' []) = []"
proof -
  have ty: "getQueryTypes exampleParser ''INSERT INTO test (name) VALUES (1)'' = Inr [''insert'']"
    by code_simp
  show ?thesis
    using ty read_only_blocked_without_transaction[OF ty, of "\<lparr>allowInsert = False, allowUpdate = False, allowDelete = False, allowDdl = False\<rparr>"]
    by simp
qed

text \<open>
  Claim C10. In single-DB mode without a default schema, a blocked query has a
  referenced table and a denylist entry with the same table name such that the entry
  is schema-less, or the table carries that very schema explicitly: a schema-qualified
  entry never blocks a reference whose schema is unresolved.
\<close>

theorem unresolved_reference_needs_schemaless_entry:
  assumes "getReferencedTables astify sql = Inr referenced"
    and "\<not> truthy (normalizeIdent defaultSchema)"
    and "isQueryBlockedByDenylist astify sql denylist defaultSchema False = Inr d"
    and "blocked d"
  shows "\<exists>t \<in> set referenced. \<exists>deny \<in> set denylist.
           table deny = table t \<and> (truthy (schema deny) \<longrightarrow> truthy (schema t) \<and> schema t = schema deny)"
proof -
  have d: "d = checkReferenced defaultSchema denylist referenced"
    using assms by (auto simp: isQueryBlockedByDenylist_def notBlocked_def split: if_splits)
  with assms(4) checkReferenced_blocked[of defaultSchema denylist referenced]
  obtain t deny where td: "t \<in> set referenced" "deny \<in> set denylist"
     "entryMatches deny (resolveSchema defaultSchema t) (table t)" by auto
  have "table deny = table t \<and> (truthy (schema deny) \<longrightarrow> truthy (schema t) \<and> schema t = schema deny)"
    using td(3) assms(2) by (auto simp: entryMatches_def resolveSchema_def truthy_def split: if_splits)
  with td show ?thesis by blast
qed

theorem unresolved_reference_needs_schemaless_entry_witness:
  "isQueryBlockedByDenylist exampleParser ''SELECT * FROM users''
        [\<lparr>schema = Some ''prod'', table = ''users''\<rparr>, \<lparr>schema = None, table = ''users''\<rparr>] None False
      = Inr \<lparr> blocked = True, reason = Some (accessReason ''users'') \<rparr>
   \<and> (\<exists>t \<in> set [\<lparr>schema = None, table = ''users''\<rparr>].
        \<exists>deny \<in> set [\<lparr>schema = Some ''prod'', table = ''users''\<rparr>, \<lparr>schema = None, table = ''users''\<rparr>].
           table deny = table t \<and> (truthy (schema deny) \<longrightarrow> truthy (schema t) \<and> schema t = schema deny))"
proof -
  have res: "isQueryBlockedByDenylist exampleParser ''SELECT * FROM users''
        [\<lparr>schema = Some ''prod'', table = ''users''\<rparr>, \<lparr>schema = None, table = ''users''\<rparr>] None False
      = Inr \<lparr> blocked = True, reason = Some (accessReason ''users'') \<rparr>"
    by code_simp
  have nd: "\<not> truthy (normalizeIdent None)"
    by (simp add: normalizeIdent_def truthy_def)
  from unresolved_reference_needs_schemaless_entry[OF example_users_refs nd res] res show ?thesis by simp
qed

end
